theory Spec2Isabelle
  imports Main
begin

section \<open>The type universe\<close>

text \<open>
  The library in \<^verbatim>\<open>src/mapped-types.ts\<close> consists of type aliases. Each alias is a function
  from types to types that the TypeScript checker evaluates. The theory models a fragment
  of the checker's types and embeds the aliases as functions over that fragment.

  A type is a union, written as the list of its members; the empty list is \<^verbatim>\<open>never\<close>, and
  \<^verbatim>\<open>A | B\<close> is list append. Two lists denote the same union when they have the same set
  of members. A member is \<^verbatim>\<open>any\<close>, a primitive type, a literal type, a function type
  (identified by its signature, which no alias of the library inspects), an array type
  (read-only or mutable, with its element type) or an object type (its properties, each
  with a name, the \<^verbatim>\<open>readonly\<close> and \<^verbatim>\<open>?\<close> modifiers and a type). \<^verbatim>\<open>boolean\<close> is the union
  \<^verbatim>\<open>true | false\<close>, as in the checker. Strict null checking is assumed.

  Outside the fragment: \<^verbatim>\<open>unknown\<close>, \<^verbatim>\<open>void\<close>, \<^verbatim>\<open>object\<close>, tuples, enums, classes, index
  signatures, numeric and symbol property keys, and the members that arrays, functions
  and primitives inherit from the standard library's interfaces.
\<close>

datatype lit = LStr string | LNum int | LBool bool

datatype 'a property =
  Prop (pname: string) (preadonly: bool) (poptional: bool) (ptype: 'a)

datatype ty =
    TAny | TNumber | TBigint | TString | TSymbol | TNull | TUndefined
  | TLit lit
  | TFunc string
  | TArray bool "ty list"
  | TObject "ty list property list"

type_synonym utype = "ty list"
type_synonym obj = "ty list property list"

definition TBoolean :: utype where
  "TBoolean = [TLit (LBool True), TLit (LBool False)]"

text \<open>\<^verbatim>\<open>T[P]\<close>: reading an optional property may give \<^verbatim>\<open>undefined\<close>.\<close>

definition prop_type :: "ty list property \<Rightarrow> utype" where
  "prop_type p = (if poptional p then List.insert TUndefined (ptype p) else ptype p)"

definition lookup :: "obj \<Rightarrow> string \<Rightarrow> ty list property option" where
  "lookup ps k = find (\<lambda>p. pname p = k) ps"

definition names :: "obj \<Rightarrow> string set" where
  "names T = set (map pname T)"

text \<open>\<^verbatim>\<open>keyof T\<close> for an object type: the union of the literal types of its property names.\<close>

definition key :: "string \<Rightarrow> ty" where
  "key k = TLit (LStr k)"

definition keyof :: "obj \<Rightarrow> utype" where
  "keyof ps = map (\<lambda>p. key (pname p)) ps"

section \<open>Assignability\<close>

text \<open>
  \<^verbatim>\<open>S extends T\<close> asks the checker whether \<^verbatim>\<open>S\<close> is assignable to \<^verbatim>\<open>T\<close>. On the fragment:
  \<^verbatim>\<open>any\<close> is related to everything in both directions; a literal type is assignable to its
  primitive type; function types are related when their signatures are the same; arrays
  are covariant and a read-only array is not assignable to a mutable one; an object type
  is assignable to another when it has every required property of the target, an
  optional property is not used for a required one, property types are assignable, and,
  for a non-empty target whose properties are all optional, some property is shared;
  everything but \<^verbatim>\<open>null\<close> and \<^verbatim>\<open>undefined\<close> is assignable to the empty object type.
  The \<^verbatim>\<open>readonly\<close> modifier plays no part in assignability.
\<close>

function (sequential) assignable :: "ty \<Rightarrow> ty \<Rightarrow> bool" where
  "assignable TAny t = True"
| "assignable s TAny = True"
| "assignable (TLit (LStr x)) TString = True"
| "assignable (TLit (LNum x)) TNumber = True"
| "assignable (TFunc f) (TFunc g) = (f = g)"
| "assignable (TArray r e) (TArray r' e') =
     ((r \<longrightarrow> r') \<and> (\<forall>a\<in>set e. \<exists>b\<in>set e'. assignable a b))"
| "assignable (TObject ps) (TObject qs) =
     ((\<forall>q\<in>set qs.
         (\<exists>p\<in>set ps. pname p = pname q \<and> (poptional p \<longrightarrow> poptional q) \<and>
            (\<forall>a\<in>set (prop_type p). \<exists>b\<in>set (prop_type q). assignable a b))
         \<or> (poptional q \<and> (\<forall>p\<in>set ps. pname p \<noteq> pname q)))
      \<and> (qs \<noteq> [] \<and> (\<forall>q\<in>set qs. poptional q) \<and> ps \<noteq> []
            \<longrightarrow> (\<exists>q\<in>set qs. \<exists>p\<in>set ps. pname p = pname q)))"
| "assignable s (TObject qs) = (qs = [] \<and> s \<noteq> TNull \<and> s \<noteq> TUndefined)"
| "assignable s t = (s = t)"
  by pat_completeness auto
termination
proof (relation "measure (\<lambda>(s, t). size s)")
  show "wf (measure (\<lambda>(s, t). size s))" by simp
next
  fix r r' :: bool and e e' :: utype and a b :: ty
  assume "a \<in> set e"
  then have "size a \<le> size_list size e" by (simp add: size_list_estimation')
  then show "((a, b), TArray r e, TArray r' e') \<in> measure (\<lambda>(s, t). size s)" by simp
next
  fix ps qs :: obj and q p :: "ty list property" and a b :: ty
  assume p: "p \<in> set ps" and a: "a \<in> set (prop_type p)"
  have 1: "size_property (size_list size) p \<le> size_list (size_property (size_list size)) ps"
    using p by (simp add: size_list_estimation')
  have 2: "size a \<le> size_property (size_list size) p"
  proof (cases "a = TUndefined")
    case True
    then show ?thesis by simp
  next
    case False
    with a have "a \<in> set (ptype p)" by (auto simp: prop_type_def split: if_splits)
    then have "size a \<le> size_list size (ptype p)" by (simp add: size_list_estimation')
    then show ?thesis by (cases p) simp
  qed
  from 1 2 show "((a, b), TObject ps, TObject qs) \<in> measure (\<lambda>(s, t). size s)" by simp
qed


text \<open>
  In \<^verbatim>\<open>extends\<close> position the library also writes an intersection (\<^verbatim>\<open>A & B\<close>). The checker
  relates a source to an intersection exactly when it relates it to both constituents,
  and to a union when it relates it to one of its members.
\<close>

datatype target = UnionOf utype | InterOf target target

fun ext :: "ty \<Rightarrow> target \<Rightarrow> bool" where
  "ext m (UnionOf B) = (\<exists>b\<in>set B. assignable m b)"
| "ext m (InterOf X Y) = (ext m X \<and> ext m Y)"

text \<open>
  A conditional type \<^verbatim>\<open>X extends Y ? A : B\<close>, with the test on \<^verbatim>\<open>X\<close> given as a predicate on
  its members. When \<^verbatim>\<open>X\<close> is \<^verbatim>\<open>any\<close> the checker returns the union of both branches. When
  \<^verbatim>\<open>X\<close> is a bare type parameter the conditional type is distributive: it is applied to
  each member of the union on its own and the results are united.
\<close>

definition conditional :: "utype \<Rightarrow> (ty \<Rightarrow> bool) \<Rightarrow> utype \<Rightarrow> utype \<Rightarrow> utype" where
  "conditional X rel thn els =
     (if TAny \<in> set X then thn @ els else if \<forall>m\<in>set X. rel m then thn else els)"

definition distribute :: "(ty \<Rightarrow> utype) \<Rightarrow> utype \<Rightarrow> utype" where
  "distribute f A = concat (map f A)"

section \<open>Set operations on unions\<close>

text \<open>\<^verbatim>\<open>type SetIntersection<A, B> = A extends B ? A : never\<close>\<close>

definition SetIntersection :: "utype \<Rightarrow> target \<Rightarrow> utype" where
  "SetIntersection A B = distribute (\<lambda>a. conditional [a] (\<lambda>m. ext m B) [a] []) A"

text \<open>\<^verbatim>\<open>type SetDifference<A, B> = A extends B ? never : A\<close>\<close>

definition SetDifference :: "utype \<Rightarrow> target \<Rightarrow> utype" where
  "SetDifference A B = distribute (\<lambda>a. conditional [a] (\<lambda>m. ext m B) [] [a]) A"

text \<open>\<^verbatim>\<open>type SetComplement<A, A1 extends A> = SetDifference<A, A1>\<close>\<close>

definition SetComplement :: "utype \<Rightarrow> target \<Rightarrow> utype" where
  "SetComplement A A1 = SetDifference A A1"

text \<open>\<^verbatim>\<open>type SymmetricDifference<A, B> = SetDifference<A | B, A & B>\<close>\<close>

definition SymmetricDifference :: "utype \<Rightarrow> utype \<Rightarrow> utype" where
  "SymmetricDifference A B = SetDifference (A @ B) (InterOf (UnionOf A) (UnionOf B))"

text \<open>Literal types, the members of the unions in the examples of the documentation.\<close>

fun is_lit :: "ty \<Rightarrow> bool" where
  "is_lit (TLit l) = True"
| "is_lit t = False"

text \<open>\<^verbatim>\<open>type NonUndefined<A> = A extends undefined ? never : A\<close>\<close>

definition NonUndefined :: "utype \<Rightarrow> utype" where
  "NonUndefined A =
     distribute (\<lambda>a. conditional [a] (\<lambda>m. ext m (UnionOf [TUndefined])) [] [a]) A"

text \<open>The built-in \<^verbatim>\<open>type NonNullable<T> = T extends null | undefined ? never : T\<close>\<close>

definition NonNullable :: "utype \<Rightarrow> utype" where
  "NonNullable A =
     distribute (\<lambda>a. conditional [a] (\<lambda>m. ext m (UnionOf [TNull, TUndefined])) [] [a]) A"

section \<open>Recursive utilities\<close>

text \<open>Facts the termination proofs of the recursive aliases need.\<close>

lemma size_elem:
  "a \<in> set e \<Longrightarrow> size (a::ty) \<le> size_list size e"
  by (simp add: size_list_estimation')

lemma size_prop_type:
  assumes "p \<in> set ps" and "a \<in> set (prop_type p)"
  shows "size a \<le> size_list (size_property (size_list size)) ps"
proof -
  have 1: "size_property (size_list size) p \<le> size_list (size_property (size_list size)) ps"
    using assms(1) by (simp add: size_list_estimation')
  have 2: "size a \<le> size_property (size_list size) p"
  proof (cases "a = TUndefined")
    case True
    then show ?thesis by simp
  next
    case False
    with assms(2) have "a \<in> set (ptype p)" by (auto simp: prop_type_def split: if_splits)
    then have "size a \<le> size_list size (ptype p)" by (simp add: size_list_estimation')
    then show ?thesis by (cases p) simp
  qed
  from 1 2 show ?thesis by simp
qed

lemma distribute_cong [fundef_cong]:
  "A = B \<Longrightarrow> (\<And>a. a \<in> set B \<Longrightarrow> f a = g a) \<Longrightarrow> distribute f A = distribute g B"
  by (simp add: distribute_def cong: map_cong)

lemma set_distribute: "set (distribute f A) = (\<Union>a\<in>set A. set (f a))"
  by (simp add: distribute_def)

lemma set_NonUndefined: "set (NonUndefined A) \<subseteq> set A"
  by (auto simp: NonUndefined_def set_distribute conditional_def split: if_splits)

lemma set_NonNullable: "set (NonNullable A) \<subseteq> set A"
  by (auto simp: NonNullable_def set_distribute conditional_def split: if_splits)

text \<open>
  The four recursive aliases are distributive conditional types: each is given on one
  member of the union, and on a union by \<^const>\<open>distribute\<close>. The chain of tests
  \<^verbatim>\<open>T extends (...args: any[]) => any\<close>, \<^verbatim>\<open>T extends any[]\<close>, \<^verbatim>\<open>T extends object\<close> selects, in this
  order, the function types, the mutable arrays, and the remaining object types (object
  types and read-only arrays); everything else takes the last branch. For \<^verbatim>\<open>any\<close> every
  branch is taken and the union of the results is \<^verbatim>\<open>any\<close>.

  An array type is represented by its mutability and its element type only. A mapped
  type applied to a read-only array is therefore the read-only array of the mapped
  element type, and the interface \<^verbatim>\<open>_DeepReadonlyArray<T>\<close>, which extends
  \<^verbatim>\<open>ReadonlyArray<DeepReadonly<T>>\<close> and adds nothing, is that read-only array.

  \<^verbatim>\<open>
  type DeepReadonly<T> = T extends (...args: any[]) => any ? T
    : T extends any[] ? _DeepReadonlyArray<T[number]>
    : T extends object ? _DeepReadonlyObject<T> : T;
  interface _DeepReadonlyArray<T> extends ReadonlyArray<DeepReadonly<T>> {}
  type _DeepReadonlyObject<T> = { readonly [P in keyof T]: DeepReadonly<T[P]> };
  \<close>
\<close>

function (sequential) DeepReadonly_m :: "ty \<Rightarrow> utype" where
  "DeepReadonly_m TAny = [TAny]"
| "DeepReadonly_m (TFunc f) = [TFunc f]"
| "DeepReadonly_m (TArray r e) = [TArray True (distribute DeepReadonly_m e)]"
| "DeepReadonly_m (TObject ps) =
     [TObject (map (\<lambda>p. Prop (pname p) True (poptional p)
                      (distribute DeepReadonly_m (prop_type p))) ps)]"
| "DeepReadonly_m t = [t]"
  by pat_completeness auto
termination
  by (relation "measure size") (auto simp: size_prop_type size_elem less_Suc_eq_le)

definition DeepReadonly :: "utype \<Rightarrow> utype" where
  "DeepReadonly T = distribute DeepReadonly_m T"

text \<open>
  \<^verbatim>\<open>
  type DeepRequired<T> = T extends (...args: any[]) => any ? T
    : T extends any[] ? _DeepRequiredArray<T[number]>
    : T extends object ? _DeepRequiredObject<T> : T;
  interface _DeepRequiredArray<T> extends Array<DeepRequired<NonUndefined<T>>> {}
  type _DeepRequiredObject<T> = { [P in keyof T]-?: DeepRequired<NonUndefined<T[P]>> };
  \<close>
\<close>

function (sequential) DeepRequired_m :: "ty \<Rightarrow> utype" where
  "DeepRequired_m TAny = [TAny]"
| "DeepRequired_m (TFunc f) = [TFunc f]"
| "DeepRequired_m (TArray r e) = [TArray r (distribute DeepRequired_m (NonUndefined e))]"
| "DeepRequired_m (TObject ps) =
     [TObject (map (\<lambda>p. Prop (pname p) (preadonly p) False
                      (distribute DeepRequired_m (NonUndefined (prop_type p)))) ps)]"
| "DeepRequired_m t = [t]"
  by pat_completeness auto
termination
  using set_NonUndefined
  by (relation "measure size") (auto simp: size_prop_type size_elem less_Suc_eq_le subset_iff)

definition DeepRequired :: "utype \<Rightarrow> utype" where
  "DeepRequired T = distribute DeepRequired_m T"

text \<open>
  \<^verbatim>\<open>
  type DeepNonNullable<T> = T extends (...args: any[]) => any ? T
    : T extends any[] ? _DeepNonNullableArray<T[number]>
    : T extends object ? _DeepNonNullableObject<T> : T;
  interface _DeepNonNullableArray<T> extends Array<DeepNonNullable<NonNullable<T>>> {}
  type _DeepNonNullableObject<T> = { [P in keyof T]-?: DeepNonNullable<NonNullable<T[P]>> };
  \<close>
\<close>

function (sequential) DeepNonNullable_m :: "ty \<Rightarrow> utype" where
  "DeepNonNullable_m TAny = [TAny]"
| "DeepNonNullable_m (TFunc f) = [TFunc f]"
| "DeepNonNullable_m (TArray r e) = [TArray r (distribute DeepNonNullable_m (NonNullable e))]"
| "DeepNonNullable_m (TObject ps) =
     [TObject (map (\<lambda>p. Prop (pname p) (preadonly p) False
                      (distribute DeepNonNullable_m (NonNullable (prop_type p)))) ps)]"
| "DeepNonNullable_m t = [t]"
  by pat_completeness auto
termination
  using set_NonNullable
  by (relation "measure size") (auto simp: size_prop_type size_elem less_Suc_eq_le subset_iff)

definition DeepNonNullable :: "utype \<Rightarrow> utype" where
  "DeepNonNullable T = distribute DeepNonNullable_m T"

text \<open>
  \<^verbatim>\<open>
  type DeepPartial<T> = T extends Function ? T
    : T extends Array<infer U> ? _DeepPartialArray<U>
    : T extends object ? _DeepPartialObject<T> : T | undefined;
  interface _DeepPartialArray<T> extends Array<DeepPartial<T>> {}
  type _DeepPartialObject<T> = { [P in keyof T]?: DeepPartial<T[P]> };
  \<close>
  The \<^verbatim>\<open>?\<close> modifier of a mapped type over an array adds \<^verbatim>\<open>undefined\<close> to the element type.
\<close>

function (sequential) DeepPartial_m :: "ty \<Rightarrow> utype" where
  "DeepPartial_m TAny = [TAny]"
| "DeepPartial_m (TFunc f) = [TFunc f]"
| "DeepPartial_m (TArray False e) = [TArray False (distribute DeepPartial_m e)]"
| "DeepPartial_m (TArray True e) =
     [TArray True (List.insert TUndefined (distribute DeepPartial_m e))]"
| "DeepPartial_m (TObject ps) =
     [TObject (map (\<lambda>p. Prop (pname p) (preadonly p) True
                      (distribute DeepPartial_m (prop_type p))) ps)]"
| "DeepPartial_m t = [t, TUndefined]"
  by pat_completeness auto
termination
  by (relation "measure size") (auto simp: size_prop_type size_elem less_Suc_eq_le)

definition DeepPartial :: "utype \<Rightarrow> utype" where
  "DeepPartial T = distribute DeepPartial_m T"

subsection \<open>Unfolding the recursive aliases step by step\<close>

text \<open>
  The checker evaluates a recursive alias by instantiating it again for every nested
  occurrence. \<^const>\<open>DeepReadonly_m\<close> and its siblings above are total functions because
  their recursion is accepted as terminating. To state termination as a property, the
  aliases are also given with open recursion: a body that receives the alias itself as
  \<open>self\<close>, and \<open>unfold\<close>, which instantiates a body at most \<open>n\<close> levels deep and gives
  \<open>None\<close> when that is not enough.
\<close>

fun unfold ::
  "((utype \<Rightarrow> utype option) \<Rightarrow> ty \<Rightarrow> utype option) \<Rightarrow> nat \<Rightarrow> utype \<Rightarrow> utype option" where
  "unfold body 0 T = None"
| "unfold body (Suc n) T = map_option concat (those (map (body (unfold body n)) T))"

fun DeepReadonly_body :: "(utype \<Rightarrow> utype option) \<Rightarrow> ty \<Rightarrow> utype option" where
  "DeepReadonly_body self TAny = Some [TAny]"
| "DeepReadonly_body self (TFunc f) = Some [TFunc f]"
| "DeepReadonly_body self (TArray r e) = map_option (\<lambda>e'. [TArray True e']) (self e)"
| "DeepReadonly_body self (TObject ps) =
     map_option (\<lambda>ps'. [TObject ps'])
       (those (map (\<lambda>p. map_option (Prop (pname p) True (poptional p))
                            (self (prop_type p))) ps))"
| "DeepReadonly_body self t = Some [t]"

fun DeepRequired_body :: "(utype \<Rightarrow> utype option) \<Rightarrow> ty \<Rightarrow> utype option" where
  "DeepRequired_body self TAny = Some [TAny]"
| "DeepRequired_body self (TFunc f) = Some [TFunc f]"
| "DeepRequired_body self (TArray r e) =
     map_option (\<lambda>e'. [TArray r e']) (self (NonUndefined e))"
| "DeepRequired_body self (TObject ps) =
     map_option (\<lambda>ps'. [TObject ps'])
       (those (map (\<lambda>p. map_option (Prop (pname p) (preadonly p) False)
                            (self (NonUndefined (prop_type p)))) ps))"
| "DeepRequired_body self t = Some [t]"

fun DeepNonNullable_body :: "(utype \<Rightarrow> utype option) \<Rightarrow> ty \<Rightarrow> utype option" where
  "DeepNonNullable_body self TAny = Some [TAny]"
| "DeepNonNullable_body self (TFunc f) = Some [TFunc f]"
| "DeepNonNullable_body self (TArray r e) =
     map_option (\<lambda>e'. [TArray r e']) (self (NonNullable e))"
| "DeepNonNullable_body self (TObject ps) =
     map_option (\<lambda>ps'. [TObject ps'])
       (those (map (\<lambda>p. map_option (Prop (pname p) (preadonly p) False)
                            (self (NonNullable (prop_type p)))) ps))"
| "DeepNonNullable_body self t = Some [t]"

fun DeepPartial_body :: "(utype \<Rightarrow> utype option) \<Rightarrow> ty \<Rightarrow> utype option" where
  "DeepPartial_body self TAny = Some [TAny]"
| "DeepPartial_body self (TFunc f) = Some [TFunc f]"
| "DeepPartial_body self (TArray False e) = map_option (\<lambda>e'. [TArray False e']) (self e)"
| "DeepPartial_body self (TArray True e) =
     map_option (\<lambda>e'. [TArray True (List.insert TUndefined e')]) (self e)"
| "DeepPartial_body self (TObject ps) =
     map_option (\<lambda>ps'. [TObject ps'])
       (those (map (\<lambda>p. map_option (Prop (pname p) (preadonly p) True)
                            (self (prop_type p))) ps))"
| "DeepPartial_body self t = Some [t, TUndefined]"

text \<open>The nesting depth of a type: how deep arrays and object types are nested in it.\<close>

definition maximum :: "nat list \<Rightarrow> nat" where
  "maximum xs = foldr max xs 0"

function (sequential) depth_m :: "ty \<Rightarrow> nat" where
  "depth_m (TArray r e) = Suc (maximum (map depth_m e))"
| "depth_m (TObject ps) =
     Suc (maximum (map (\<lambda>p. maximum (map depth_m (prop_type p))) ps))"
| "depth_m t = 0"
  by pat_completeness auto
termination
  by (relation "measure size") (auto simp: size_prop_type size_elem less_Suc_eq_le)

definition depth :: "utype \<Rightarrow> nat" where
  "depth T = maximum (map depth_m T)"

section \<open>Utilities on object types\<close>

text \<open>
  For these aliases the parameter \<^verbatim>\<open>T\<close> is an object type, given by its list of
  properties. The built-in \<^verbatim>\<open>type Extract<T, U> = T extends U ? T : never\<close> and the
  built-in \<^verbatim>\<open>type Pick<T, K extends keyof T> = { [P in K]: T[P] }\<close>, a mapped type that
  keeps the modifiers of the properties it selects: with \<^verbatim>\<open>K\<close> a part of \<^verbatim>\<open>keyof T\<close> it keeps
  the properties of \<^verbatim>\<open>T\<close> whose key is in \<^verbatim>\<open>K\<close>.
\<close>

definition Extract :: "utype \<Rightarrow> target \<Rightarrow> utype" where
  "Extract T U = distribute (\<lambda>a. conditional [a] (\<lambda>m. ext m U) [a] []) T"

definition Pick :: "obj \<Rightarrow> target \<Rightarrow> obj" where
  "Pick T K = filter (\<lambda>p. ext (key (pname p)) K) T"

text \<open>\<^verbatim>\<open>type Omit<T, K extends keyof any> = Pick<T, SetDifference<keyof T, K>>\<close>\<close>

definition Omit :: "obj \<Rightarrow> target \<Rightarrow> obj" where
  "Omit T K = Pick T (UnionOf (SetDifference (keyof T) K))"

text \<open>
  \<^verbatim>\<open>
  type Intersection<T extends object, U extends object> =
    Pick<T, Extract<keyof T, keyof U> & Extract<keyof U, keyof T>>
  \<close>
\<close>

definition Intersection :: "obj \<Rightarrow> obj \<Rightarrow> obj" where
  "Intersection T U =
     Pick T (InterOf (UnionOf (Extract (keyof T) (UnionOf (keyof U))))
                   (UnionOf (Extract (keyof U) (UnionOf (keyof T)))))"

text \<open>
  \<^verbatim>\<open>type Diff<T extends object, U extends object> = Pick<T, SetDifference<keyof T, keyof U>>\<close>
\<close>

definition Diff :: "obj \<Rightarrow> obj \<Rightarrow> obj" where
  "Diff T U = Pick T (UnionOf (SetDifference (keyof T) (UnionOf (keyof U))))"

text \<open>
  \<^verbatim>\<open>type Subtract<T extends T1, T1 extends object> = Pick<T, SetComplement<keyof T, keyof T1>>\<close>
\<close>

definition Subtract :: "obj \<Rightarrow> obj \<Rightarrow> obj" where
  "Subtract T T1 = Pick T (UnionOf (SetComplement (keyof T) (UnionOf (keyof T1))))"

text \<open>
  An intersection of object types is kept as written until its properties are needed.
  Its properties are those of both sides. A key that both sides declare would get the
  intersection of the two property types, a type outside the fragment: \<open>resolve\<close> gives
  \<open>None\<close> then.
\<close>

datatype objexp = Obj obj | And objexp objexp

fun resolve :: "objexp \<Rightarrow> obj option" where
  "resolve (Obj ps) = Some ps"
| "resolve (And a b) =
     (case (resolve a, resolve b) of
        (Some ps, Some qs) \<Rightarrow>
          if set (map pname ps) \<inter> set (map pname qs) = {} then Some (ps @ qs) else None
      | _ \<Rightarrow> None)"

text \<open>
  \<^verbatim>\<open>
  type Overwrite<T extends object, U extends object,
    I = Diff<T, U> & Intersection<U, T>> = Pick<I, keyof I>;
  type Assign<T extends object, U extends object,
    I = Diff<T, U> & Intersection<U, T> & Diff<U, T>> = Pick<I, keyof I>;
  \<close>
  Both are modelled with the default of the third parameter.
\<close>

definition Overwrite :: "obj \<Rightarrow> obj \<Rightarrow> obj option" where
  "Overwrite T U =
     map_option (\<lambda>I. Pick I (UnionOf (keyof I)))
       (resolve (And (Obj (Diff T U)) (Obj (Intersection U T))))"

definition Assign :: "obj \<Rightarrow> obj \<Rightarrow> obj option" where
  "Assign T U =
     map_option (\<lambda>I. Pick I (UnionOf (keyof I)))
       (resolve (And (And (Obj (Diff T U)) (Obj (Intersection U T))) (Obj (Diff U T))))"

text \<open>
  \<^verbatim>\<open>T[K]\<close> for a union \<^verbatim>\<open>K\<close> of keys of \<^verbatim>\<open>T\<close> is the union of the types of these properties.
\<close>

definition index :: "obj \<Rightarrow> utype \<Rightarrow> utype" where
  "index T K = distribute (\<lambda>k. case k of
       TLit (LStr s) \<Rightarrow> (case lookup T s of Some p \<Rightarrow> prop_type p | None \<Rightarrow> [])
     | _ \<Rightarrow> []) K"

text \<open>
  \<^verbatim>\<open>X extends Function\<close>: within the fragment the members assignable to the interface
  \<^verbatim>\<open>Function\<close> are the function types.
\<close>

fun extends_Function :: "ty \<Rightarrow> bool" where
  "extends_Function (TFunc f) = True"
| "extends_Function t = False"

text \<open>
  \<^verbatim>\<open>
  type FunctionKeys<T extends object> =
    { [K in keyof T]-?: NonUndefined<T[K]> extends Function ? K : never }[keyof T];
  type NonFunctionKeys<T extends object> =
    { [K in keyof T]-?: NonUndefined<T[K]> extends Function ? never : K }[keyof T];
  \<close>
  The tested type is not a bare type parameter, so these conditional types do not
  distribute: the whole of \<^verbatim>\<open>NonUndefined<T[K]>\<close> is tested.
\<close>

definition FunctionKeys :: "obj \<Rightarrow> utype" where
  "FunctionKeys T =
     index (map (\<lambda>p. Prop (pname p) (preadonly p) False
                   (conditional (NonUndefined (prop_type p)) extends_Function
                      [key (pname p)] [])) T)
           (keyof T)"

definition NonFunctionKeys :: "obj \<Rightarrow> utype" where
  "NonFunctionKeys T =
     index (map (\<lambda>p. Prop (pname p) (preadonly p) False
                   (conditional (NonUndefined (prop_type p)) extends_Function
                      [] [key (pname p)])) T)
           (keyof T)"

section \<open>Promises\<close>








section \<open>Structural equality\<close>

text \<open>
  Two types are structurally equal when they have the same members up to the order of
  union members and of properties. An optional property is compared by the type that
  reading it gives, so \<^verbatim>\<open>a?: T\<close> and \<^verbatim>\<open>a?: T | undefined\<close> are equal.
\<close>

function (sequential) teq_m :: "ty \<Rightarrow> ty \<Rightarrow> bool" where
  "teq_m (TArray r e) (TArray r' e') =
     (r = r' \<and> (\<forall>a\<in>set e. \<exists>b\<in>set e'. teq_m a b) \<and> (\<forall>b\<in>set e'. \<exists>a\<in>set e. teq_m a b))"
| "teq_m (TObject ps) (TObject qs) =
     ((\<forall>p\<in>set ps. \<exists>q\<in>set qs.
         pname p = pname q \<and> preadonly p = preadonly q \<and> poptional p = poptional q \<and>
         (\<forall>a\<in>set (prop_type p). \<exists>b\<in>set (prop_type q). teq_m a b) \<and>
         (\<forall>b\<in>set (prop_type q). \<exists>a\<in>set (prop_type p). teq_m a b))
      \<and> (\<forall>q\<in>set qs. \<exists>p\<in>set ps.
         pname p = pname q \<and> preadonly p = preadonly q \<and> poptional p = poptional q \<and>
         (\<forall>a\<in>set (prop_type p). \<exists>b\<in>set (prop_type q). teq_m a b) \<and>
         (\<forall>b\<in>set (prop_type q). \<exists>a\<in>set (prop_type p). teq_m a b)))"
| "teq_m s t = (s = t)"
  by pat_completeness auto
termination
  by (relation "measure (\<lambda>(s, t). size s)") (auto simp: size_prop_type size_elem less_Suc_eq_le)

definition teq :: "utype \<Rightarrow> utype \<Rightarrow> bool" where
  "teq A B = ((\<forall>a\<in>set A. \<exists>b\<in>set B. teq_m a b) \<and> (\<forall>b\<in>set B. \<exists>a\<in>set A. teq_m a b))"

section \<open>The examples of the documentation\<close>

text \<open>The types that the comments in the source use as examples.\<close>

definition NestedProps :: utype where
  "NestedProps =
     [TObject [Prop ''first'' False False
        [TObject [Prop ''second'' False False
           [TObject [Prop ''name'' False False [TString]]]]]]]"

definition Props :: obj where
  "Props = [Prop ''name'' False False [TString], Prop ''age'' False False [TNumber],
            Prop ''visible'' False False TBoolean]"

definition NewProps :: obj where
  "NewProps = [Prop ''age'' False False [TString], Prop ''other'' False False [TString]]"

text \<open>
  The result that the comment at \<^verbatim>\<open>Assign\<close> expects for \<^verbatim>\<open>Assign<Props, NewProps>\<close>:
  \<^verbatim>\<open>{ name: string; age: number; visible: boolean; other: string; }\<close>, and the same with
  \<^verbatim>\<open>age: string\<close>.
\<close>

definition Assign_documented :: obj where
  "Assign_documented =
     [Prop ''name'' False False [TString], Prop ''age'' False False [TNumber],
      Prop ''visible'' False False TBoolean, Prop ''other'' False False [TString]]"

definition Assign_computed :: obj where
  "Assign_computed =
     [Prop ''name'' False False [TString], Prop ''age'' False False [TString],
      Prop ''visible'' False False TBoolean, Prop ''other'' False False [TString]]"

text \<open>
  \<^verbatim>\<open>
  type MixedProps = { name: string; setName: (name: string) => void;
    someKeys?: string; someFn?: (...args: any) => any; };
  \<close>
\<close>

definition MixedProps :: obj where
  "MixedProps =
     [Prop ''name'' False False [TString],
      Prop ''setName'' False False [TFunc ''(name: string) => void''],
      Prop ''someKeys'' False True [TString],
      Prop ''someFn'' False True [TFunc ''(...args: any) => any'']]"

text \<open>Two object types, the first assignable to the second: \<^verbatim>\<open>{x: 1; y: 2}\<close> and \<^verbatim>\<open>{x: 1}\<close>.\<close>

definition ObjXY :: ty where
  "ObjXY = TObject [Prop ''x'' False False [TLit (LNum 1)], Prop ''y'' False False [TLit (LNum 2)]]"

definition ObjX :: ty where
  "ObjX = TObject [Prop ''x'' False False [TLit (LNum 1)]]"

section \<open>Termination of the recursive utilities\<close>

lemma maximum_le: "maximum (map f xs) \<le> n \<longleftrightarrow> (\<forall>x\<in>set xs. f x \<le> n)"
  by (induction xs) (auto simp: maximum_def)

lemma those_map_Some:
  "(\<And>x. x \<in> set xs \<Longrightarrow> f x = Some (g x)) \<Longrightarrow> those (map f xs) = Some (map g xs)"
  by (induction xs) auto

lemma depth_le: "depth T \<le> n \<longleftrightarrow> (\<forall>m\<in>set T. depth_m m \<le> n)"
  by (simp add: depth_def maximum_le)

lemma depth_mono: "set A \<subseteq> set B \<Longrightarrow> depth A \<le> depth B"
  using depth_le[of A "depth B"] depth_le[of B "depth B"] by auto

text \<open>
  Unfolding an alias one level deeper than the nesting depth of its argument is enough,
  and gives the value of the total function.
\<close>

lemma DeepReadonly_unfold:
  "depth T \<le> n \<Longrightarrow> unfold DeepReadonly_body (Suc n) T = Some (DeepReadonly T)"
proof (induction n arbitrary: T)
  case 0
  have "DeepReadonly_body (unfold DeepReadonly_body 0) m = Some (DeepReadonly_m m)" if "m \<in> set T" for m
  proof -
    from 0 have "depth T \<le> 0" by simp
    with that have "depth_m m \<le> 0" unfolding depth_le by blast
    then have "depth_m m = 0" by simp
    then show ?thesis by (cases m) simp_all
  qed
  then show ?case
    by (simp add: those_map_Some DeepReadonly_def distribute_def)
next
  case (Suc n)
  have "DeepReadonly_body (unfold DeepReadonly_body (Suc n)) m = Some (DeepReadonly_m m)" if "m \<in> set T" for m
  proof -
    from Suc.prems that have d: "depth_m m \<le> Suc n" by (simp add: depth_le)
    show ?thesis
    proof (cases m)
      case (TArray r e)
      with d have "depth e \<le> n" by (simp add: depth_def)
      then have "depth e \<le> n" by simp
      then have "unfold DeepReadonly_body (Suc n) e = Some (DeepReadonly e)" by (rule Suc.IH)
      with TArray show ?thesis by (cases r) (simp_all add: DeepReadonly_def del: unfold.simps)
    next
      case (TObject ps)
      with d have "depth (prop_type p) \<le> n" if "p \<in> set ps" for p
        using that by (simp add: depth_def maximum_le)
      then have "depth (prop_type p) \<le> n" if "p \<in> set ps" for p
        using that by simp
      then have "unfold DeepReadonly_body (Suc n) (prop_type p) = Some (DeepReadonly (prop_type p))"
        if "p \<in> set ps" for p using that Suc.IH by blast
      then have "those (map (\<lambda>p. map_option (Prop (pname p) True (poptional p))
                   (unfold DeepReadonly_body (Suc n) (prop_type p))) ps)
            = Some (map (\<lambda>p. Prop (pname p) True (poptional p) (DeepReadonly (prop_type p))) ps)"
        by (intro those_map_Some) (simp del: unfold.simps)
      with TObject show ?thesis by (simp add: DeepReadonly_def del: unfold.simps)
    qed simp_all
  qed
  then have "those (map (DeepReadonly_body (unfold DeepReadonly_body (Suc n))) T) = Some (map DeepReadonly_m T)"
    by (rule those_map_Some)
  then show ?case
    by (simp add: DeepReadonly_def distribute_def)
qed

lemma DeepRequired_unfold:
  "depth T \<le> n \<Longrightarrow> unfold DeepRequired_body (Suc n) T = Some (DeepRequired T)"
proof (induction n arbitrary: T)
  case 0
  have "DeepRequired_body (unfold DeepRequired_body 0) m = Some (DeepRequired_m m)" if "m \<in> set T" for m
  proof -
    from 0 have "depth T \<le> 0" by simp
    with that have "depth_m m \<le> 0" unfolding depth_le by blast
    then have "depth_m m = 0" by simp
    then show ?thesis by (cases m) simp_all
  qed
  then show ?case
    by (simp add: those_map_Some DeepRequired_def distribute_def)
next
  case (Suc n)
  have "DeepRequired_body (unfold DeepRequired_body (Suc n)) m = Some (DeepRequired_m m)" if "m \<in> set T" for m
  proof -
    from Suc.prems that have d: "depth_m m \<le> Suc n" by (simp add: depth_le)
    show ?thesis
    proof (cases m)
      case (TArray r e)
      with d have "depth e \<le> n" by (simp add: depth_def)
      then have "depth (NonUndefined e) \<le> n" by (rule order_trans[OF depth_mono[OF set_NonUndefined]])
      then have "unfold DeepRequired_body (Suc n) (NonUndefined e) = Some (DeepRequired (NonUndefined e))" by (rule Suc.IH)
      with TArray show ?thesis by (cases r) (simp_all add: DeepRequired_def del: unfold.simps)
    next
      case (TObject ps)
      with d have "depth (prop_type p) \<le> n" if "p \<in> set ps" for p
        using that by (simp add: depth_def maximum_le)
      then have "depth (NonUndefined (prop_type p)) \<le> n" if "p \<in> set ps" for p
        using that order_trans[OF depth_mono[OF set_NonUndefined]] by blast
      then have "unfold DeepRequired_body (Suc n) (NonUndefined (prop_type p)) = Some (DeepRequired (NonUndefined (prop_type p)))"
        if "p \<in> set ps" for p using that Suc.IH by blast
      then have "those (map (\<lambda>p. map_option (Prop (pname p) (preadonly p) False)
                   (unfold DeepRequired_body (Suc n) (NonUndefined (prop_type p)))) ps)
            = Some (map (\<lambda>p. Prop (pname p) (preadonly p) False (DeepRequired (NonUndefined (prop_type p)))) ps)"
        by (intro those_map_Some) (simp del: unfold.simps)
      with TObject show ?thesis by (simp add: DeepRequired_def del: unfold.simps)
    qed simp_all
  qed
  then have "those (map (DeepRequired_body (unfold DeepRequired_body (Suc n))) T) = Some (map DeepRequired_m T)"
    by (rule those_map_Some)
  then show ?case
    by (simp add: DeepRequired_def distribute_def)
qed

lemma DeepNonNullable_unfold:
  "depth T \<le> n \<Longrightarrow> unfold DeepNonNullable_body (Suc n) T = Some (DeepNonNullable T)"
proof (induction n arbitrary: T)
  case 0
  have "DeepNonNullable_body (unfold DeepNonNullable_body 0) m = Some (DeepNonNullable_m m)" if "m \<in> set T" for m
  proof -
    from 0 have "depth T \<le> 0" by simp
    with that have "depth_m m \<le> 0" unfolding depth_le by blast
    then have "depth_m m = 0" by simp
    then show ?thesis by (cases m) simp_all
  qed
  then show ?case
    by (simp add: those_map_Some DeepNonNullable_def distribute_def)
next
  case (Suc n)
  have "DeepNonNullable_body (unfold DeepNonNullable_body (Suc n)) m = Some (DeepNonNullable_m m)" if "m \<in> set T" for m
  proof -
    from Suc.prems that have d: "depth_m m \<le> Suc n" by (simp add: depth_le)
    show ?thesis
    proof (cases m)
      case (TArray r e)
      with d have "depth e \<le> n" by (simp add: depth_def)
      then have "depth (NonNullable e) \<le> n" by (rule order_trans[OF depth_mono[OF set_NonNullable]])
      then have "unfold DeepNonNullable_body (Suc n) (NonNullable e) = Some (DeepNonNullable (NonNullable e))" by (rule Suc.IH)
      with TArray show ?thesis by (cases r) (simp_all add: DeepNonNullable_def del: unfold.simps)
    next
      case (TObject ps)
      with d have "depth (prop_type p) \<le> n" if "p \<in> set ps" for p
        using that by (simp add: depth_def maximum_le)
      then have "depth (NonNullable (prop_type p)) \<le> n" if "p \<in> set ps" for p
        using that order_trans[OF depth_mono[OF set_NonNullable]] by blast
      then have "unfold DeepNonNullable_body (Suc n) (NonNullable (prop_type p)) = Some (DeepNonNullable (NonNullable (prop_type p)))"
        if "p \<in> set ps" for p using that Suc.IH by blast
      then have "those (map (\<lambda>p. map_option (Prop (pname p) (preadonly p) False)
                   (unfold DeepNonNullable_body (Suc n) (NonNullable (prop_type p)))) ps)
            = Some (map (\<lambda>p. Prop (pname p) (preadonly p) False (DeepNonNullable (NonNullable (prop_type p)))) ps)"
        by (intro those_map_Some) (simp del: unfold.simps)
      with TObject show ?thesis by (simp add: DeepNonNullable_def del: unfold.simps)
    qed simp_all
  qed
  then have "those (map (DeepNonNullable_body (unfold DeepNonNullable_body (Suc n))) T) = Some (map DeepNonNullable_m T)"
    by (rule those_map_Some)
  then show ?case
    by (simp add: DeepNonNullable_def distribute_def)
qed

lemma DeepPartial_unfold:
  "depth T \<le> n \<Longrightarrow> unfold DeepPartial_body (Suc n) T = Some (DeepPartial T)"
proof (induction n arbitrary: T)
  case 0
  have "DeepPartial_body (unfold DeepPartial_body 0) m = Some (DeepPartial_m m)" if "m \<in> set T" for m
  proof -
    from 0 have "depth T \<le> 0" by simp
    with that have "depth_m m \<le> 0" unfolding depth_le by blast
    then have "depth_m m = 0" by simp
    then show ?thesis by (cases m) simp_all
  qed
  then show ?case
    by (simp add: those_map_Some DeepPartial_def distribute_def)
next
  case (Suc n)
  have "DeepPartial_body (unfold DeepPartial_body (Suc n)) m = Some (DeepPartial_m m)" if "m \<in> set T" for m
  proof -
    from Suc.prems that have d: "depth_m m \<le> Suc n" by (simp add: depth_le)
    show ?thesis
    proof (cases m)
      case (TArray r e)
      with d have "depth e \<le> n" by (simp add: depth_def)
      then have "depth e \<le> n" by simp
      then have "unfold DeepPartial_body (Suc n) e = Some (DeepPartial e)" by (rule Suc.IH)
      with TArray show ?thesis by (cases r) (simp_all add: DeepPartial_def del: unfold.simps)
    next
      case (TObject ps)
      with d have "depth (prop_type p) \<le> n" if "p \<in> set ps" for p
        using that by (simp add: depth_def maximum_le)
      then have "depth (prop_type p) \<le> n" if "p \<in> set ps" for p
        using that by simp
      then have "unfold DeepPartial_body (Suc n) (prop_type p) = Some (DeepPartial (prop_type p))"
        if "p \<in> set ps" for p using that Suc.IH by blast
      then have "those (map (\<lambda>p. map_option (Prop (pname p) (preadonly p) True)
                   (unfold DeepPartial_body (Suc n) (prop_type p))) ps)
            = Some (map (\<lambda>p. Prop (pname p) (preadonly p) True (DeepPartial (prop_type p))) ps)"
        by (intro those_map_Some) (simp del: unfold.simps)
      with TObject show ?thesis by (simp add: DeepPartial_def del: unfold.simps)
    qed simp_all
  qed
  then have "those (map (DeepPartial_body (unfold DeepPartial_body (Suc n))) T) = Some (map DeepPartial_m T)"
    by (rule those_map_Some)
  then show ?case
    by (simp add: DeepPartial_def distribute_def)
qed

text \<open>
  Claim C1. For every type of the fragment (built from primitives, functions, arrays and
  finitely nested object types), each of \<^verbatim>\<open>DeepReadonly\<close>, \<^verbatim>\<open>DeepRequired\<close>, \<^verbatim>\<open>DeepNonNullable\<close>
  and \<^verbatim>\<open>DeepPartial\<close> is a total mapping: unfolding the alias more levels than the type is
  deep always returns, and it returns one and the same type whatever the number of
  levels allowed beyond that.
\<close>

theorem deep_utilities_terminate:
  "unfold DeepReadonly_body (Suc (depth T + k)) T = Some (DeepReadonly T) \<and>
   unfold DeepRequired_body (Suc (depth T + k)) T = Some (DeepRequired T) \<and>
   unfold DeepNonNullable_body (Suc (depth T + k)) T = Some (DeepNonNullable T) \<and>
   unfold DeepPartial_body (Suc (depth T + k)) T = Some (DeepPartial T)"
  using DeepReadonly_unfold[of T "depth T + k"] DeepRequired_unfold[of T "depth T + k"]
    DeepNonNullable_unfold[of T "depth T + k"] DeepPartial_unfold[of T "depth T + k"]
  by (simp del: unfold.simps)

theorem deep_utilities_terminate_witness:
  "depth NestedProps = 3 \<and>
   unfold DeepReadonly_body 4 NestedProps = Some (DeepReadonly NestedProps) \<and>
   unfold DeepRequired_body 4 NestedProps = Some (DeepRequired NestedProps) \<and>
   unfold DeepNonNullable_body 4 NestedProps = Some (DeepNonNullable NestedProps) \<and>
   unfold DeepPartial_body 4 NestedProps = Some (DeepPartial NestedProps)"
proof -
  have d: "depth NestedProps = 3"
    by (simp add: NestedProps_def depth_def maximum_def prop_type_def)
  have "Suc (depth NestedProps + 0) = 4" by (simp add: d)
  with deep_utilities_terminate[of NestedProps 0] d show ?thesis by (simp del: unfold.simps)
qed

section \<open>Idempotence of DeepReadonly\<close>







section \<open>Set operations\<close>

lemmas ev = SymmetricDifference_def SetDifference_def SetIntersection_def distribute_def
  conditional_def key_def prop_type_def

lemma assignable_lit: "assignable (TLit x) (TLit y) = (x = y)"
  by (cases x; cases y) auto

lemma ext_lit:
  "is_lit a \<Longrightarrow> \<forall>b\<in>set B. is_lit b \<Longrightarrow> ext a (UnionOf B) = (a \<in> set B)"
proof -
  assume a: "is_lit a" and B: "\<forall>b\<in>set B. is_lit b"
  from a obtain x where x: "a = TLit x" by (cases a) auto
  have "assignable a b = (a = b)" if "b \<in> set B" for b
  proof -
    from B that obtain y where "b = TLit y" by (cases b) auto
    with x show ?thesis by (simp add: assignable_lit)
  qed
  then show ?thesis by auto
qed

lemma is_lit_not_any: "is_lit a \<Longrightarrow> a \<noteq> TAny"
  by auto

lemma SetIntersection_filter:
  "TAny \<notin> set A \<Longrightarrow> SetIntersection A B = filter (\<lambda>a. ext a B) A"
  by (induction A) (auto simp: SetIntersection_def distribute_def conditional_def)

lemma SetDifference_filter:
  "TAny \<notin> set A \<Longrightarrow> SetDifference A B = filter (\<lambda>a. \<not> ext a B) A"
  by (induction A) (auto simp: SetDifference_def distribute_def conditional_def)

lemma assignable_refl: "assignable t t"
proof (induction t rule: DeepReadonly_m.induct)
  case (4 ps)
  have "\<exists>p\<in>set ps. pname p = pname q \<and> (poptional p \<longrightarrow> poptional q) \<and>
            (\<forall>a\<in>set (prop_type p). \<exists>b\<in>set (prop_type q). assignable a b)"
    if "q \<in> set ps" for q
    using that 4 by (intro bexI[of _ q]) auto
  moreover have "\<exists>q\<in>set ps. \<exists>p\<in>set ps. pname p = pname q" if "ps \<noteq> []"
    using that by (cases ps) auto
  ultimately show ?case by auto
qed auto

lemma ext_refl: "a \<in> set A \<Longrightarrow> ext a (UnionOf A)"
  using assignable_refl by auto

lemma SymmetricDifference_split:
  assumes "TAny \<notin> set A" and "TAny \<notin> set B"
  shows "SymmetricDifference A B = SetDifference A (UnionOf B) @ SetDifference B (UnionOf A)"
proof -
  have "filter (\<lambda>a. \<not> (ext a (UnionOf A) \<and> ext a (UnionOf B))) A = filter (\<lambda>a. \<not> ext a (UnionOf B)) A"
    by (rule filter_cong) (auto simp del: ext.simps simp: ext_refl)
  moreover have "filter (\<lambda>a. \<not> (ext a (UnionOf A) \<and> ext a (UnionOf B))) B = filter (\<lambda>a. \<not> ext a (UnionOf A)) B"
    by (rule filter_cong) (auto simp del: ext.simps simp: ext_refl)
  ultimately show ?thesis
    using assms by (simp add: SymmetricDifference_def SetDifference_filter del: ext.simps(1))
qed

lemma SymmetricDifference_lit:
  assumes "\<forall>a\<in>set A \<union> set B. is_lit a"
  shows "set (SymmetricDifference A B) = (set A - set B) \<union> (set B - set A)"
proof -
  have "\<not> is_lit TAny" by simp
  with assms have na: "TAny \<notin> set A" "TAny \<notin> set B" by blast+
  have "ext a (UnionOf B) = (a \<in> set B)" if "a \<in> set A" for a
    using that assms by (intro ext_lit) auto
  moreover have "ext b (UnionOf A) = (b \<in> set A)" if "b \<in> set B" for b
    using that assms by (intro ext_lit) auto
  ultimately show ?thesis
    unfolding SymmetricDifference_split[OF na] SetDifference_filter[OF na(1)] SetDifference_filter[OF na(2)]
    by (auto simp del: ext.simps)
qed







text \<open>
  Claim C3, as stated. \<^verbatim>\<open>SymmetricDifference<A, B>\<close> would be the symmetric difference of
  the sets of members of \<^verbatim>\<open>A\<close> and \<^verbatim>\<open>B\<close>. It is not: with
  \<^verbatim>\<open>A = 'a' | {x: 1; y: 2} | {x: 1}\<close> and \<^verbatim>\<open>B = string | {x: 1}\<close> the alias gives \<^verbatim>\<open>string\<close>: it
  drops \<^verbatim>\<open>'a'\<close> and \<^verbatim>\<open>{x: 1; y: 2}\<close>, which are members of \<^verbatim>\<open>A\<close> only, because they are
  assignable to members of \<^verbatim>\<open>B\<close>. (Read as sets of values, the symmetric difference does
  not contain the string \<^verbatim>\<open>'a'\<close>, which \<^verbatim>\<open>string\<close> does.)
\<close>

theorem SymmetricDifference_counterexample:
  "SymmetricDifference [key ''a'', ObjXY, ObjX] [TString, ObjX] = [TString] \<and>
   set (SymmetricDifference [key ''a'', ObjXY, ObjX] [TString, ObjX])
     \<noteq> (set [key ''a'', ObjXY, ObjX] - set [TString, ObjX]) \<union> (set [TString, ObjX] - set [key ''a'', ObjXY, ObjX])"
  by (auto simp: ev ObjXY_def ObjX_def)


text \<open>
  Claim C3, amended. When neither \<^verbatim>\<open>A\<close> nor \<^verbatim>\<open>B\<close> is \<^verbatim>\<open>any\<close>, \<^verbatim>\<open>SymmetricDifference<A, B>\<close> is
  \<^verbatim>\<open>SetDifference<A, B> | SetDifference<B, A>\<close>. For unions of literal types it is the
  symmetric difference of the sets of members.
\<close>

theorem SymmetricDifference_design:
  "(TAny \<notin> set A \<union> set B \<longrightarrow>
      SymmetricDifference A B = SetDifference A (UnionOf B) @ SetDifference B (UnionOf A)) \<and>
   ((\<forall>a\<in>set A \<union> set B. is_lit a) \<longrightarrow>
      set (SymmetricDifference A B) = (set A - set B) \<union> (set B - set A))"
  using SymmetricDifference_split[of A B] SymmetricDifference_lit[of A B] by simp

theorem SymmetricDifference_design_witness:
  "list_all is_lit (map key [''1'', ''2'', ''3''] @ map key [''2'', ''3'', ''4'']) \<and>
   TAny \<notin> set (map key [''1'', ''2'', ''3'']) \<union> set (map key [''2'', ''3'', ''4'']) \<and>
   SymmetricDifference (map key [''1'', ''2'', ''3'']) (map key [''2'', ''3'', ''4''])
     = map key [''1'', ''4''] \<and>
   set (SymmetricDifference (map key [''1'', ''2'', ''3'']) (map key [''2'', ''3'', ''4'']))
     = (set (map key [''1'', ''2'', ''3'']) - set (map key [''2'', ''3'', ''4'']))
       \<union> (set (map key [''2'', ''3'', ''4'']) - set (map key [''1'', ''2'', ''3'']))"
proof -
  have h: "\<forall>a\<in>set (map key [''1'', ''2'', ''3'']) \<union> set (map key [''2'', ''3'', ''4'']). is_lit a"
    by (simp add: key_def)
  have n: "TAny \<notin> set (map key [''1'', ''2'', ''3'']) \<union> set (map key [''2'', ''3'', ''4''])"
    by (simp add: key_def)
  have l: "list_all is_lit (map key [''1'', ''2'', ''3''] @ map key [''2'', ''3'', ''4''])"
    by (simp add: key_def)
  have v: "SymmetricDifference (map key [''1'', ''2'', ''3'']) (map key [''2'', ''3'', ''4''])
     = map key [''1'', ''4'']"
    by (simp add: ev)
  from SymmetricDifference_design[of "map key [''1'', ''2'', ''3'']" "map key [''2'', ''3'', ''4'']"]
    h n l v show ?thesis by blast
qed


section \<open>Utilities on object types\<close>

lemma keyof_no_any: "TAny \<notin> set (keyof T)"
  by (auto simp: keyof_def key_def)

lemma assignable_key: "assignable (key k) (key k') = (k = k')"
  by (simp add: key_def assignable_lit)

lemma ext_keyof: "ext (key k) (UnionOf (keyof U)) = (k \<in> names U)"
  by (auto simp: keyof_def assignable_key names_def)

lemma ext_keys: "ext (key k) (UnionOf (map key ks)) = (k \<in> set ks)"
  by (auto simp: assignable_key)

lemma ext_SetDifference_keyof:
  "ext (key k) (UnionOf (SetDifference (keyof T) K)) = (k \<in> names T \<and> \<not> ext (key k) K)"
  unfolding SetDifference_filter[OF keyof_no_any]
  by (auto simp: keyof_def assignable_key names_def)

lemma ext_Extract_keyof:
  "ext (key k) (UnionOf (Extract (keyof T) K)) = (k \<in> names T \<and> ext (key k) K)"
proof -
  have "Extract (keyof T) K = filter (\<lambda>a. ext a K) (keyof T)"
    using SetIntersection_filter[OF keyof_no_any] by (simp add: Extract_def SetIntersection_def)
  then show ?thesis by (auto simp: keyof_def assignable_key names_def)
qed

lemma Omit_filter: "Omit T K = filter (\<lambda>p. \<not> ext (key (pname p)) K) T"
  unfolding Omit_def Pick_def ext_SetDifference_keyof
  by (rule filter_cong) (auto simp: names_def)

lemma Diff_filter: "Diff T U = filter (\<lambda>p. pname p \<notin> names U) T"
  unfolding Diff_def Pick_def ext_SetDifference_keyof ext_keyof
  by (rule filter_cong) (auto simp: names_def)

lemma Intersection_filter: "Intersection T U = filter (\<lambda>p. pname p \<in> names U) T"
  unfolding Intersection_def Pick_def ext.simps(2) ext_Extract_keyof ext_keyof
  by (rule filter_cong) (auto simp: names_def)

lemma Pick_all: "Pick I (UnionOf (keyof I)) = I"
  unfolding Pick_def ext_keyof by (simp add: names_def)

lemma lookup_filter:
  "lookup (filter (\<lambda>p. P (pname p)) T) k = (if P k then lookup T k else None)"
  by (induction T) (auto simp: lookup_def)

lemma lookup_append:
  "lookup (T @ U) k = (case lookup T k of Some p \<Rightarrow> Some p | None \<Rightarrow> lookup U k)"
  by (induction T) (auto simp: lookup_def)

lemma lookup_None: "lookup T k = None \<longleftrightarrow> k \<notin> names T"
  by (induction T) (auto simp: lookup_def names_def)

lemma Overwrite_eq:
  "Overwrite T U = Some (filter (\<lambda>p. pname p \<notin> names U) T @ filter (\<lambda>p. pname p \<in> names T) U)"
proof -
  have "set (map pname (Diff T U)) \<inter> set (map pname (Intersection U T)) = {}"
    by (auto simp: Diff_filter Intersection_filter names_def)
  then show ?thesis
    by (simp add: Overwrite_def Pick_all) (simp add: Diff_filter Intersection_filter)
qed

lemmas obj_ev = Overwrite_def Assign_def Diff_def Intersection_def Pick_def Extract_def
  Omit_def keyof_def SetDifference_def distribute_def conditional_def key_def prop_type_def
  Props_def NewProps_def TBoolean_def

lemma Assign_Props:
  "Assign Props NewProps =
     Some [Prop ''name'' False False [TString], Prop ''visible'' False False TBoolean,
           Prop ''age'' False False [TString], Prop ''other'' False False [TString]]"
  by (simp add: obj_ev)


text \<open>
  Claim C6. For every object type \<open>T\<close> and every key set \<open>K\<close>, \<^verbatim>\<open>Omit<T, K>\<close> is the object type
  with exactly the properties of \<open>T\<close> whose keys are not in \<open>K\<close>, each unchanged. A key is in
  \<open>K\<close> when its literal type is assignable to \<open>K\<close>; for a union of literal keys that is
  membership.
\<close>

theorem Omit_spec:
  "Omit T K = filter (\<lambda>p. \<not> ext (key (pname p)) K) T \<and>
   Omit T (UnionOf (map key ks)) = filter (\<lambda>p. pname p \<notin> set ks) T \<and>
   lookup (Omit T K) k = (if ext (key k) K then None else lookup T k)"
  using lookup_filter[of "\<lambda>k. \<not> ext (key k) K" T k]
  by (simp add: Omit_filter ext_keys del: ext.simps)


theorem Omit_spec_witness:
  "Omit Props (UnionOf [key ''age'']) =
     [Prop ''name'' False False [TString], Prop ''visible'' False False TBoolean] \<and>
   Omit Props (UnionOf (map key [''age''])) = filter (\<lambda>p. pname p \<notin> set [''age'']) Props \<and>
   lookup (Omit Props (UnionOf [key ''age''])) ''age'' = None \<and>
   lookup (Omit Props (UnionOf [key ''age''])) ''name'' = lookup Props ''name''"
proof -
  have 1: "ext (key ''age'') (UnionOf [key ''age''])" and 2: "\<not> ext (key ''name'') (UnionOf [key ''age''])"
    by (simp_all add: key_def)
  have 3: "Omit Props (UnionOf [key ''age'']) =
     [Prop ''name'' False False [TString], Prop ''visible'' False False TBoolean]"
    by (simp add: obj_ev)
  note S = Omit_spec[of Props "UnionOf [key ''age'']" "[''age'']"]
  have 4: "Omit Props (UnionOf (map key [''age''])) = filter (\<lambda>p. pname p \<notin> set [''age'']) Props"
    using S[of "''age''", THEN conjunct2, THEN conjunct1] .
  have 5: "lookup (Omit Props (UnionOf [key ''age''])) ''age'' = None"
    using S[of "''age''", THEN conjunct2, THEN conjunct2] 1 by (simp del: ext.simps)
  have 6: "lookup (Omit Props (UnionOf [key ''age''])) ''name'' = lookup Props ''name''"
    using S[of "''name''", THEN conjunct2, THEN conjunct2] 2 by (simp del: ext.simps)
  from 3 4 5 6 show ?thesis by blast
qed


text \<open>
  Claim C9. For all object types \<open>T\<close> and \<open>U\<close>, \<^verbatim>\<open>Overwrite<T, U>\<close> has exactly the keys of \<open>T\<close>;
  a property whose key does not occur in \<open>U\<close> is the property of \<open>T\<close>, a property whose key
  occurs in both is the property of \<open>U\<close>, and a key that occurs only in \<open>U\<close> is not added.
\<close>

theorem Overwrite_frame:
  "\<exists>R. Overwrite T U = Some R \<and> names R = names T \<and>
     (\<forall>k. lookup R k = (if k \<in> names T \<and> k \<in> names U then lookup U k else lookup T k))"
proof -
  let ?R = "filter (\<lambda>p. pname p \<notin> names U) T @ filter (\<lambda>p. pname p \<in> names T) U"
  have 2: "lookup ?R k = (if k \<in> names T \<and> k \<in> names U then lookup U k else lookup T k)" for k
    using lookup_filter[of "\<lambda>k. k \<notin> names U" T k] lookup_filter[of "\<lambda>k. k \<in> names T" U k]
      lookup_None[of T k] lookup_None[of U k]
    by (auto simp: lookup_append split: option.splits)
  have "k \<in> names ?R \<longleftrightarrow> k \<in> names T" for k
    using 2[of k] lookup_None[of ?R k] lookup_None[of T k] lookup_None[of U k]
    by (simp split: if_splits)
  then have 1: "names ?R = names T" by blast
  from 1 2 Overwrite_eq[of T U] show ?thesis by blast
qed

theorem Overwrite_frame_witness:
  "Overwrite Props NewProps =
     Some [Prop ''name'' False False [TString], Prop ''visible'' False False TBoolean,
           Prop ''age'' False False [TString]] \<and>
   (\<exists>R. Overwrite Props NewProps = Some R \<and> names R = names Props \<and>
     (\<forall>k. lookup R k =
        (if k \<in> names Props \<and> k \<in> names NewProps then lookup NewProps k else lookup Props k)))"
proof -
  have "Overwrite Props NewProps =
     Some [Prop ''name'' False False [TString], Prop ''visible'' False False TBoolean,
           Prop ''age'' False False [TString]]"
    by (simp add: obj_ev)
  with Overwrite_frame[of Props NewProps] show ?thesis by blast
qed


text \<open>
  Claim C2, as stated. \<^verbatim>\<open>Assign<Props, NewProps>\<close> would be structurally equal to the type
  that the comment at the declaration expects, in which \<^verbatim>\<open>age\<close> is a \<^verbatim>\<open>number\<close>. It is not:
  \<^verbatim>\<open>age\<close> is taken from \<^verbatim>\<open>NewProps\<close> and is a \<^verbatim>\<open>string\<close>.
\<close>

theorem Assign_example_counterexample:
  "Assign Props NewProps =
     Some [Prop ''name'' False False [TString], Prop ''visible'' False False TBoolean,
           Prop ''age'' False False [TString], Prop ''other'' False False [TString]] \<and>
   \<not> teq [TObject [Prop ''name'' False False [TString], Prop ''visible'' False False TBoolean,
           Prop ''age'' False False [TString], Prop ''other'' False False [TString]]]
          [TObject Assign_documented]"
  by (simp add: Assign_Props) (simp add: teq_def Assign_documented_def TBoolean_def prop_type_def)


text \<open>
  Claim C2, amended. \<^verbatim>\<open>Assign<Props, NewProps>\<close> is structurally equal to
  \<^verbatim>\<open>{ name: string; age: string; visible: boolean; other: string; }\<close>.
\<close>

theorem Assign_example:
  "\<exists>R. Assign Props NewProps = Some R \<and> teq [TObject R] [TObject Assign_computed]"
  by (simp add: Assign_Props) (simp add: teq_def Assign_computed_def TBoolean_def prop_type_def)


theorem Assign_example_witness:
  "Assign Props NewProps =
     Some [Prop ''name'' False False [TString], Prop ''visible'' False False TBoolean,
           Prop ''age'' False False [TString], Prop ''other'' False False [TString]] \<and>
   (\<exists>R. Assign Props NewProps = Some R \<and> teq [TObject R] [TObject Assign_computed])"
  using Assign_example Assign_Props by blast

section \<open>Function keys\<close>

lemma lookup_map:
  "(\<And>p. pname (g p) = pname p) \<Longrightarrow> lookup (map g T) k = map_option g (lookup T k)"
  by (induction T) (auto simp: lookup_def)

lemma lookup_name: "lookup T k = Some p \<Longrightarrow> pname p = k \<and> p \<in> set T"
  by (induction T) (auto simp: lookup_def split: if_splits)

lemma index_map:
  "index (map (\<lambda>p. Prop (pname p) (r p) False (f p)) T) (keyof T) =
     concat (map (\<lambda>p. case lookup T (pname p) of Some q \<Rightarrow> f q | None \<Rightarrow> []) T)"
proof -
  let ?g = "\<lambda>p. Prop (pname p) (r p) False (f p)"
  have "lookup (map ?g T) k = map_option ?g (lookup T k)" for k
    by (rule lookup_map) simp
  then have "(case lookup (map ?g T) k of Some q \<Rightarrow> prop_type q | None \<Rightarrow> [])
           = (case lookup T k of Some q \<Rightarrow> f q | None \<Rightarrow> [])" for k
    by (cases "lookup T k") (simp_all add: prop_type_def)
  then show ?thesis
    by (simp add: index_def distribute_def keyof_def key_def comp_def)
qed

lemma set_index_map:
  "t \<in> set (index (map (\<lambda>p. Prop (pname p) (r p) False (f p)) T) (keyof T)) \<longleftrightarrow>
     (\<exists>k q. lookup T k = Some q \<and> t \<in> set (f q))"
proof
  assume "t \<in> set (index (map (\<lambda>p. Prop (pname p) (r p) False (f p)) T) (keyof T))"
  then obtain p where "p \<in> set T"
    and "t \<in> set (case lookup T (pname p) of Some q \<Rightarrow> f q | None \<Rightarrow> [])"
    unfolding index_map by auto
  then show "\<exists>k q. lookup T k = Some q \<and> t \<in> set (f q)"
    by (cases "lookup T (pname p)") auto
next
  assume "\<exists>k q. lookup T k = Some q \<and> t \<in> set (f q)"
  then obtain k q where l: "lookup T k = Some q" and t: "t \<in> set (f q)" by blast
  from l have "pname q = k" and "q \<in> set T" using lookup_name by blast+
  with l t show "t \<in> set (index (map (\<lambda>p. Prop (pname p) (r p) False (f p)) T) (keyof T))"
    unfolding index_map by (auto intro!: bexI[of _ q])
qed

lemma NonUndefined_any: "TAny \<in> set (NonUndefined A) \<longleftrightarrow> TAny \<in> set A"
  by (auto simp: NonUndefined_def set_distribute conditional_def split: if_splits)

lemma prop_type_any: "TAny \<in> set (prop_type p) \<longleftrightarrow> TAny \<in> set (ptype p)"
  by (simp add: prop_type_def)

lemma set_conditional_thn:
  "set (conditional X rel [a] []) =
     (if TAny \<in> set X \<or> (\<forall>m\<in>set X. rel m) then {a} else {})"
  by (simp add: conditional_def)

lemma set_conditional_els:
  "set (conditional X rel [] [a]) =
     (if TAny \<in> set X \<or> \<not> (\<forall>m\<in>set X. rel m) then {a} else {})"
  by (simp add: conditional_def)

lemma in_FunctionKeys:
  "t \<in> set (FunctionKeys T) \<longleftrightarrow>
     (\<exists>k p. t = key k \<and> lookup T k = Some p \<and>
        (TAny \<in> set (ptype p) \<or> (\<forall>m\<in>set (NonUndefined (prop_type p)). extends_Function m)))"
proof -
  have "t \<in> set (FunctionKeys T) \<longleftrightarrow>
      (\<exists>k q. lookup T k = Some q \<and>
         t \<in> set (conditional (NonUndefined (prop_type q)) extends_Function [key (pname q)] []))"
    by (simp add: FunctionKeys_def set_index_map)
  also have "\<dots> \<longleftrightarrow> (\<exists>k q. lookup T k = Some q \<and> t = key (pname q) \<and>
        (TAny \<in> set (ptype q) \<or> (\<forall>m\<in>set (NonUndefined (prop_type q)). extends_Function m)))"
    by (simp add: set_conditional_thn NonUndefined_any prop_type_any) blast
  also have "\<dots> \<longleftrightarrow> (\<exists>k p. t = key k \<and> lookup T k = Some p \<and>
        (TAny \<in> set (ptype p) \<or> (\<forall>m\<in>set (NonUndefined (prop_type p)). extends_Function m)))"
    using lookup_name by blast
  finally show ?thesis .
qed

lemma in_NonFunctionKeys:
  "t \<in> set (NonFunctionKeys T) \<longleftrightarrow>
     (\<exists>k p. t = key k \<and> lookup T k = Some p \<and>
        (TAny \<in> set (ptype p) \<or> \<not> (\<forall>m\<in>set (NonUndefined (prop_type p)). extends_Function m)))"
proof -
  have "t \<in> set (NonFunctionKeys T) \<longleftrightarrow>
      (\<exists>k q. lookup T k = Some q \<and>
         t \<in> set (conditional (NonUndefined (prop_type q)) extends_Function [] [key (pname q)]))"
    by (simp add: NonFunctionKeys_def set_index_map)
  also have "\<dots> \<longleftrightarrow> (\<exists>k q. lookup T k = Some q \<and> t = key (pname q) \<and>
        (TAny \<in> set (ptype q) \<or> \<not> (\<forall>m\<in>set (NonUndefined (prop_type q)). extends_Function m)))"
    by (simp add: set_conditional_els NonUndefined_any prop_type_any) blast
  also have "\<dots> \<longleftrightarrow> (\<exists>k p. t = key k \<and> lookup T k = Some p \<and>
        (TAny \<in> set (ptype p) \<or> \<not> (\<forall>m\<in>set (NonUndefined (prop_type p)). extends_Function m)))"
    using lookup_name by blast
  finally show ?thesis .
qed

lemma key_inj: "key k = key k' \<longleftrightarrow> k = k'"
  by (simp add: key_def)

lemma in_keyof: "t \<in> set (keyof T) \<longleftrightarrow> (\<exists>k p. t = key k \<and> lookup T k = Some p)"
proof -
  have "t \<in> set (keyof T) \<longleftrightarrow> (\<exists>k. t = key k \<and> k \<in> names T)"
    by (auto simp: keyof_def names_def)
  also have "\<dots> \<longleftrightarrow> (\<exists>k p. t = key k \<and> lookup T k = Some p)"
    using lookup_None[of T] by (metis not_Some_eq)
  finally show ?thesis .
qed

lemmas fk_ev = FunctionKeys_def NonFunctionKeys_def index_def lookup_def keyof_def
  NonUndefined_def distribute_def conditional_def key_def prop_type_def


text \<open>
  Claim C8, as stated. \<^verbatim>\<open>FunctionKeys<T>\<close> and \<^verbatim>\<open>NonFunctionKeys<T>\<close> would have no key in
  common. They have one when a property has the type \<^verbatim>\<open>any\<close>: both conditional types then
  give the union of their two branches, so the key of \<^verbatim>\<open>{ a: any }\<close> is in both.
\<close>

theorem FunctionKeys_counterexample:
  "FunctionKeys [Prop ''a'' False False [TAny]] = [key ''a''] \<and>
   NonFunctionKeys [Prop ''a'' False False [TAny]] = [key ''a''] \<and>
   set (FunctionKeys [Prop ''a'' False False [TAny]])
     \<inter> set (NonFunctionKeys [Prop ''a'' False False [TAny]]) \<noteq> {}"
  by (simp add: fk_ev)


text \<open>
  Claim C8, amended. For every object type \<open>T\<close> the union of \<^verbatim>\<open>FunctionKeys<T>\<close> and
  \<^verbatim>\<open>NonFunctionKeys<T>\<close> is \<^verbatim>\<open>keyof T\<close>. When no property of \<open>T\<close> has the type \<^verbatim>\<open>any\<close>, no key
  belongs to both, and a key \<open>K\<close> belongs to \<^verbatim>\<open>FunctionKeys<T>\<close> exactly when
  \<^verbatim>\<open>NonUndefined<T[K]>\<close> is assignable to \<^verbatim>\<open>Function\<close>, that is, when each of its members is
  a function type (which includes the case that it is \<^verbatim>\<open>never\<close>).
\<close>

theorem FunctionKeys_partition:
  "set (FunctionKeys T) \<union> set (NonFunctionKeys T) = set (keyof T) \<and>
   ((\<forall>p\<in>set T. TAny \<notin> set (ptype p)) \<longrightarrow>
      set (FunctionKeys T) \<inter> set (NonFunctionKeys T) = {} \<and>
      (\<forall>k p. lookup T k = Some p \<longrightarrow>
         (key k \<in> set (FunctionKeys T) \<longleftrightarrow>
            (\<forall>m\<in>set (NonUndefined (prop_type p)). extends_Function m))))"
proof (intro conjI impI allI)
  show "set (FunctionKeys T) \<union> set (NonFunctionKeys T) = set (keyof T)"
  proof (rule set_eqI)
    fix t
    show "t \<in> set (FunctionKeys T) \<union> set (NonFunctionKeys T) \<longleftrightarrow> t \<in> set (keyof T)"
      unfolding Un_iff in_FunctionKeys in_NonFunctionKeys in_keyof by blast
  qed
next
  assume na: "\<forall>p\<in>set T. TAny \<notin> set (ptype p)"
  have no: "TAny \<notin> set (ptype p)" if "lookup T k = Some p" for k p
    using that lookup_name na by blast
  show "set (FunctionKeys T) \<inter> set (NonFunctionKeys T) = {}"
  proof (rule ccontr)
    assume "set (FunctionKeys T) \<inter> set (NonFunctionKeys T) \<noteq> {}"
    then obtain t where 1: "t \<in> set (FunctionKeys T)" and 2: "t \<in> set (NonFunctionKeys T)"
      by blast
    from 1 obtain k p where k: "t = key k" "lookup T k = Some p"
      "\<forall>m\<in>set (NonUndefined (prop_type p)). extends_Function m"
      unfolding in_FunctionKeys using no by blast
    from 2 obtain k' p' where k': "t = key k'" "lookup T k' = Some p'"
      "\<not> (\<forall>m\<in>set (NonUndefined (prop_type p')). extends_Function m)"
      unfolding in_NonFunctionKeys using no by blast
    from k(1) k'(1) have "k = k'" by (simp add: key_inj)
    with k(2) k'(2) have "p = p'" by simp
    with k(3) k'(3) show False by simp
  qed
  fix k p
  assume l: "lookup T k = Some p"
  show "key k \<in> set (FunctionKeys T) \<longleftrightarrow>
          (\<forall>m\<in>set (NonUndefined (prop_type p)). extends_Function m)"
    unfolding in_FunctionKeys using l no[OF l] by (auto simp: key_inj)
qed

theorem FunctionKeys_partition_witness:
  "list_all (\<lambda>p. TAny \<notin> set (ptype p)) MixedProps \<and>
   FunctionKeys MixedProps = [key ''setName'', key ''someFn''] \<and>
   NonFunctionKeys MixedProps = [key ''name'', key ''someKeys''] \<and>
   set (FunctionKeys MixedProps) \<union> set (NonFunctionKeys MixedProps) = set (keyof MixedProps) \<and>
   set (FunctionKeys MixedProps) \<inter> set (NonFunctionKeys MixedProps) = {} \<and>
   lookup MixedProps ''someFn'' = Some (Prop ''someFn'' False True [TFunc ''(...args: any) => any'']) \<and>
   key ''someFn'' \<in> set (FunctionKeys MixedProps)"
proof -
  have h: "\<forall>p\<in>set MixedProps. TAny \<notin> set (ptype p)" by (simp add: MixedProps_def)
  have h': "list_all (\<lambda>p. TAny \<notin> set (ptype p)) MixedProps" by (simp add: MixedProps_def)
  have v: "FunctionKeys MixedProps = [key ''setName'', key ''someFn'']"
    "NonFunctionKeys MixedProps = [key ''name'', key ''someKeys'']"
    by (simp_all add: fk_ev MixedProps_def)
  have l: "lookup MixedProps ''someFn'' = Some (Prop ''someFn'' False True [TFunc ''(...args: any) => any''])"
    by (simp add: lookup_def MixedProps_def)
  have f: "\<forall>m\<in>set (NonUndefined (prop_type (Prop ''someFn'' False True [TFunc ''(...args: any) => any'']))). extends_Function m"
    by (simp add: fk_ev)
  from FunctionKeys_partition[of MixedProps] h l f
  have "set (FunctionKeys MixedProps) \<union> set (NonFunctionKeys MixedProps) = set (keyof MixedProps)"
    and "set (FunctionKeys MixedProps) \<inter> set (NonFunctionKeys MixedProps) = {}"
    and "key ''someFn'' \<in> set (FunctionKeys MixedProps)"
    by blast+
  with h' v l show ?thesis by blast
qed


section \<open>The resolve type of a promise\<close>








end
